theory Spec2Isabelle
  imports Complex_Main "HOL-Library.AList"
begin

section \<open>Bet tracker: odds conversion, metrics and bankroll simulation\<close>

text \<open>
  A shallow embedding of the helper functions of \<^verbatim>\<open>app.py\<close>:
  \<^verbatim>\<open>american_to_decimal\<close>, \<^verbatim>\<open>compute_metrics\<close> and \<^verbatim>\<open>bankroll_simulation\<close>.

  Numbers. The program computes with IEEE doubles. Here a finite double is a \<^typ>\<open>real\<close>
  and arithmetic on finite values is exact: rounding, overflow and the infinities are not
  modelled. Not-a-number is a value of its own, because \<^verbatim>\<open>american_to_decimal\<close> returns it.
  Where a property is about the digits that the program returns, the functions are given
  a second time with every operation rounded to the nearest double.

  Exceptions are values: a computation that can raise returns \<open>py_error + 'a\<close>, with
  \<open>Inl\<close> the exception.
\<close>

subsection \<open>Python values and floats\<close>

datatype py_error = TypeError | ValueError | ZeroDivisionError | KeyError string

datatype pyfloat = Fin real | NaN

text \<open>What a caller can pass as \<^verbatim>\<open>odds\<close>: nothing, a number, or a string.\<close>

datatype pyobj = PyNone | PyNum real | PyStr string

text \<open>
  The builtin \<^verbatim>\<open>float(x)\<close>: \<^verbatim>\<open>TypeError\<close> on \<^verbatim>\<open>None\<close>, the number itself on a number,
  and on a string the parsed literal or \<^verbatim>\<open>ValueError\<close>. The grammar of float literals is
  the parameter \<open>parse\<close> (\<open>None\<close> for a string that is not a literal).
\<close>

fun py_float :: "(string \<Rightarrow> pyfloat option) \<Rightarrow> pyobj \<Rightarrow> py_error + pyfloat" where
  "py_float parse PyNone = Inl TypeError"
| "py_float parse (PyNum x) = Inr (Fin x)"
| "py_float parse (PyStr s) = (case parse s of None \<Rightarrow> Inl ValueError | Some v \<Rightarrow> Inr v)"

text \<open>Comparison with a not-a-number is false.\<close>

fun fl_gt :: "pyfloat \<Rightarrow> pyfloat \<Rightarrow> bool" where
  "fl_gt (Fin a) (Fin b) = (a > b)"
| "fl_gt _ _ = False"

fun fl_abs :: "pyfloat \<Rightarrow> pyfloat" where
  "fl_abs (Fin a) = Fin \<bar>a\<bar>"
| "fl_abs NaN = NaN"

fun fl_add :: "pyfloat \<Rightarrow> pyfloat \<Rightarrow> pyfloat" where
  "fl_add (Fin a) (Fin b) = Fin (a + b)"
| "fl_add _ _ = NaN"

text \<open>
  Division of Python floats raises \<^verbatim>\<open>ZeroDivisionError\<close> on a zero divisor, whatever the
  dividend.
\<close>

fun fl_div :: "pyfloat \<Rightarrow> pyfloat \<Rightarrow> py_error + pyfloat" where
  "fl_div a (Fin b) =
     (if b = 0 then Inl ZeroDivisionError
      else (case a of Fin x \<Rightarrow> Inr (Fin (x / b)) | NaN \<Rightarrow> Inr NaN))"
| "fl_div a NaN = Inr NaN"

subsection \<open>Odds conversion\<close>

text \<open>
  \<^verbatim>\<open>
  def american_to_decimal(odds):
      try:
          odds = float(odds)
      except (TypeError, ValueError):
          return np.nan
      if odds > 0:
          return 1 + (odds / 100.0)
      else:
          return 1 + (100.0 / abs(odds))
  \<close>
  Only the conversion is inside the \<^verbatim>\<open>try\<close>; the arithmetic after it is not.
\<close>

fun caught :: "py_error \<Rightarrow> bool" where
  "caught TypeError = True"
| "caught ValueError = True"
| "caught _ = False"

definition one_plus :: "py_error + pyfloat \<Rightarrow> py_error + pyfloat" where
  "one_plus q = (case q of Inl e \<Rightarrow> Inl e | Inr v \<Rightarrow> Inr (fl_add (Fin 1) v))"

definition american_to_decimal ::
  "(string \<Rightarrow> pyfloat option) \<Rightarrow> pyobj \<Rightarrow> py_error + pyfloat" where
  "american_to_decimal parse odds =
     (case py_float parse odds of
        Inl e \<Rightarrow> (if caught e then Inr NaN else Inl e)
      | Inr x \<Rightarrow>
          (if fl_gt x (Fin 0) then one_plus (fl_div x (Fin 100))
           else one_plus (fl_div (Fin 100) (fl_abs x))))"

subsection \<open>The ledger\<close>

text \<open>
  One row of the ledger, with the fourteen columns of \<^verbatim>\<open>load_bets\<close>. A date is a
  timestamp, an integer count of time units since the epoch. The columns are typed:
  a text column holds strings, \<^verbatim>\<open>stake\<close>, \<^verbatim>\<open>profit\<close> and the other numeric columns
  hold finite numbers. A ledger with a missing or non-numeric cell in such a column is
  outside the model.
\<close>

record bet =
  date :: int
  sport :: string
  market :: string
  book :: string
  bet_type :: string
  selection :: string
  odds_american :: real
  odds_decimal :: pyfloat
  stake :: real
  result :: string
  profit :: real
  expected_value :: real
  closing_line :: string
  notes_text :: string

text \<open>
  The dataframe a caller holds: its rows in index order, and the column
  \<^verbatim>\<open>cumulative_profit\<close>, which a freshly loaded ledger does not have (\<open>None\<close>). A
  cell of that column is a float: a row appended to a frame that has the column gets a
  not-a-number there.
\<close>

record dataframe =
  rows :: "bet list"
  cumulative_profit :: "pyfloat list option"

text \<open>\<^verbatim>\<open>Series.cumsum()\<close>: the running sum, in index order.\<close>

fun cumsum_from :: "real \<Rightarrow> real list \<Rightarrow> real list" where
  "cumsum_from acc [] = []"
| "cumsum_from acc (x # xs) = (acc + x) # cumsum_from (acc + x) xs"

definition cumsum :: "real list \<Rightarrow> real list" where
  "cumsum xs = cumsum_from 0 xs"

text \<open>
  \<^verbatim>\<open>DataFrame.sort_values('date')\<close> returns a new frame and leaves its argument as it is.
  It is modelled as a stable sort: rows of the same date keep their order. (The
  library's default sorting algorithm does not promise an order among rows of the same
  date.)
\<close>

definition sort_values_date :: "bet list \<Rightarrow> bet list" where
  "sort_values_date rs = sort_key date rs"

text \<open>\<^verbatim>\<open>Series.unique()\<close>: the distinct values, in order of first appearance.\<close>

fun unique_from :: "'a list \<Rightarrow> 'a list \<Rightarrow> 'a list" where
  "unique_from seen [] = []"
| "unique_from seen (x # xs) =
     (if x \<in> set seen then unique_from seen xs else x # unique_from (x # seen) xs)"

definition unique :: "'a list \<Rightarrow> 'a list" where
  "unique xs = unique_from [] xs"

subsection \<open>Metrics\<close>

text \<open>
  \<^verbatim>\<open>
  def compute_metrics(df):
      df['cumulative_profit'] = df['profit'].cumsum()
      total_staked = df['stake'].sum()
      total_profit = df['profit'].sum()
      roi = (total_profit / total_staked) if total_staked else 0
      win_rate = (df['profit'] > 0).sum() / len(df) if len(df) else 0
      return {'Total Bets': len(df), 'Total Staked': total_staked,
              'Total Profit': total_profit, 'ROI': roi, 'Win Rate': win_rate}
  \<close>
  The first statement assigns a column of the caller's frame. The model returns that
  frame as the call leaves it, next to the outcome. A division is checked: a zero
  divisor is \<^verbatim>\<open>ZeroDivisionError\<close>.
\<close>

record metrics =
  Total_Bets :: nat
  Total_Staked :: real
  Total_Profit :: real
  ROI :: real
  Win_Rate :: real

definition py_div :: "real \<Rightarrow> real \<Rightarrow> py_error + real" where
  "py_div a b = (if b = 0 then Inl ZeroDivisionError else Inr (a / b))"

definition compute_metrics :: "dataframe \<Rightarrow> dataframe \<times> (py_error + metrics)" where
  "compute_metrics df =
     (let df1 = df\<lparr>cumulative_profit := Some (map Fin (cumsum (map profit (rows df))))\<rparr>;
          total_staked = sum_list (map stake (rows df1));
          total_profit = sum_list (map profit (rows df1));
          n = length (rows df1);
          wins = length (filter (\<lambda>r. profit r > 0) (rows df1))
      in (df1,
          (case (if total_staked \<noteq> 0 then py_div total_profit total_staked else Inr 0) of
             Inl e \<Rightarrow> Inl e
           | Inr roi \<Rightarrow>
               (case (if n \<noteq> 0 then py_div (real wins) (real n) else Inr 0) of
                  Inl e \<Rightarrow> Inl e
                | Inr win_rate \<Rightarrow>
                    Inr \<lparr>Total_Bets = n, Total_Staked = total_staked,
                         Total_Profit = total_profit, ROI = roi,
                         Win_Rate = win_rate\<rparr>))))"

subsection \<open>Bankroll simulation\<close>

text \<open>
  \<^verbatim>\<open>
  STARTING_BANKROLLS = {'FanDuel': 200.0, 'DraftKings': 200.0, 'Caesars': 200.0}

  def bankroll_simulation(df):
      df = df.sort_values('date')
      running = {b: STARTING_BANKROLLS.get(b, 0.0) for b in df['book'].unique()}
      rows = []
      for _, r in df.iterrows():
          b = r['book']
          running[b] = running.get(b, 0.0) + r['profit']
          snap = {'date': r['date']}
          snap.update({f'balance__{bk}': running[bk] for bk in running})
          rows.append(snap)
      out = pd.DataFrame(rows).drop_duplicates('date').sort_values('date')
      return out
  \<close>
  A dictionary is an association list in insertion order; \<open>AList.update\<close> replaces the
  value of a key in place and appends a new key, as assignment to a Python dictionary
  does.
\<close>

definition STARTING_BANKROLLS :: "(string \<times> real) list" where
  "STARTING_BANKROLLS = [(''FanDuel'', 200), (''DraftKings'', 200), (''Caesars'', 200)]"

definition dict_get :: "('k \<times> 'v) list \<Rightarrow> 'k \<Rightarrow> 'v \<Rightarrow> 'v" where
  "dict_get d k dflt = (case map_of d k of None \<Rightarrow> dflt | Some v \<Rightarrow> v)"

text \<open>
  A snapshot row: the date, and under the key \<^verbatim>\<open>balance__\<close>\<open>bk\<close> the balance of each
  book \<open>bk\<close> of the running table, kept here under \<open>bk\<close> itself.
\<close>

record snapshot =
  snap_date :: int
  balances :: "(string \<times> real) list"

text \<open>The loop over the sorted rows, with the running table as its state.\<close>

fun walk :: "(string \<times> real) list \<Rightarrow> bet list \<Rightarrow> snapshot list" where
  "walk running [] = []"
| "walk running (r # rs) =
     (let b = book r;
          running1 = AList.update b (dict_get running b 0 + profit r) running;
          snap = \<lparr>snap_date = date r, balances = running1\<rparr>
      in snap # walk running1 rs)"

text \<open>
  The frame \<^verbatim>\<open>pd.DataFrame(rows)\<close> of a list of dictionaries: its columns are the keys
  of the dictionaries, so the frame of the empty list has no column at all. Every
  snapshot of one walk has the same keys in the same order.
\<close>

record snap_frame =
  columns :: "string list"
  snaps :: "snapshot list"

definition snapshot_keys :: "snapshot \<Rightarrow> string list" where
  "snapshot_keys s = ''date'' # map (\<lambda>(bk, v). ''balance__'' @ bk) (balances s)"

definition DataFrame :: "snapshot list \<Rightarrow> snap_frame" where
  "DataFrame ss =
     \<lparr>columns = (case ss of [] \<Rightarrow> [] | s # _ \<Rightarrow> snapshot_keys s), snaps = ss\<rparr>"

text \<open>
  \<^verbatim>\<open>drop_duplicates('date')\<close> with its default \<^verbatim>\<open>keep='first'\<close>: of the rows of one
  date the first stays. An empty frame is returned as it is, before the column is
  looked up; otherwise a missing column is a \<^verbatim>\<open>KeyError\<close>.
\<close>

fun keep_first :: "int list \<Rightarrow> snapshot list \<Rightarrow> snapshot list" where
  "keep_first seen [] = []"
| "keep_first seen (s # ss) =
     (if snap_date s \<in> set seen then keep_first seen ss
      else s # keep_first (snap_date s # seen) ss)"

definition drop_duplicates_date :: "snap_frame \<Rightarrow> py_error + snap_frame" where
  "drop_duplicates_date f =
     (if snaps f = [] \<or> columns f = [] then Inr f
      else if ''date'' \<notin> set (columns f) then Inl (KeyError ''date'')
      else Inr (f\<lparr>snaps := keep_first [] (snaps f)\<rparr>))"

text \<open>
  \<^verbatim>\<open>sort_values('date')\<close> on the snapshot frame looks the column up first: a frame
  without it is a \<^verbatim>\<open>KeyError\<close>, also when it has no rows.
\<close>

definition sort_values_snap :: "snap_frame \<Rightarrow> py_error + snap_frame" where
  "sort_values_snap f =
     (if ''date'' \<notin> set (columns f) then Inl (KeyError ''date'')
      else Inr (f\<lparr>snaps := sort_key snap_date (snaps f)\<rparr>))"

text \<open>
  The function rebinds its local name \<^verbatim>\<open>df\<close> to the sorted copy and only reads from
  it. The model returns the caller's frame as the call leaves it, next to the outcome.
\<close>

definition bankroll_simulation :: "dataframe \<Rightarrow> dataframe \<times> (py_error + snap_frame)" where
  "bankroll_simulation df =
     (let sorted_rows = sort_values_date (rows df);
          running = map (\<lambda>b. (b, dict_get STARTING_BANKROLLS b 0))
                        (unique (map book sorted_rows));
          out_rows = walk running sorted_rows
      in (df,
          (case drop_duplicates_date (DataFrame out_rows) of
             Inl e \<Rightarrow> Inl e
           | Inr f \<Rightarrow> sort_values_snap f)))"

subsection \<open>Loading and appending\<close>

text \<open>
  \<^verbatim>\<open>
  CSV_PATH = 'bets_log.csv'

  def load_bets(path=CSV_PATH):
      try:
          df = pd.read_csv(path, parse_dates=['date'])
          return df
      except FileNotFoundError:
          cols = ['date', 'sport', ..., 'notes']
          return pd.DataFrame(columns=cols)

  def save_bets(df, path=CSV_PATH):
      df.to_csv(path, index=False)

  def add_bet(df, bet_data):
      df = pd.concat([df, pd.DataFrame([bet_data])], ignore_index=True)
      save_bets(df)
      return df
  \<close>
  The files are a map from paths to contents. The text that the library writes for a
  frame and the frame that it reads from a text are the parameters \<open>to_csv\<close> and
  \<open>read_csv\<close>; reading can raise.
\<close>

definition CSV_PATH :: string where
  "CSV_PATH = ''bets_log.csv''"

definition empty_ledger :: dataframe where
  "empty_ledger = \<lparr>rows = [], cumulative_profit = None\<rparr>"

definition load_bets ::
  "('t \<Rightarrow> py_error + dataframe) \<Rightarrow> (string \<rightharpoonup> 't) \<Rightarrow> string \<Rightarrow> py_error + dataframe" where
  "load_bets read_csv files path =
     (case files path of None \<Rightarrow> Inr empty_ledger | Some t \<Rightarrow> read_csv t)"

definition save_bets ::
  "(dataframe \<Rightarrow> 't) \<Rightarrow> dataframe \<Rightarrow> (string \<rightharpoonup> 't) \<Rightarrow> string \<Rightarrow> (string \<rightharpoonup> 't)" where
  "save_bets to_csv df files path = files(path \<mapsto> to_csv df)"

text \<open>\<^verbatim>\<open>pd.concat\<close> of a frame and the one-row frame of a new bet.\<close>

definition concat_row :: "dataframe \<Rightarrow> bet \<Rightarrow> dataframe" where
  "concat_row df bet_data =
     \<lparr>rows = rows df @ [bet_data],
      cumulative_profit = map_option (\<lambda>c. c @ [NaN]) (cumulative_profit df)\<rparr>"

definition add_bet ::
  "(dataframe \<Rightarrow> 't) \<Rightarrow> dataframe \<Rightarrow> bet \<Rightarrow> (string \<rightharpoonup> 't) \<Rightarrow> dataframe \<times> (string \<rightharpoonup> 't)" where
  "add_bet to_csv df bet_data files =
     (let df1 = concat_row df bet_data
      in (df1, save_bets to_csv df1 files CSV_PATH))"

subsection \<open>The loop's state, and the behaviour the specification names\<close>

text \<open>The running table of \<^verbatim>\<open>bankroll_simulation\<close> after the loop has processed \<open>rs\<close>.\<close>

fun settle :: "(string \<times> real) list \<Rightarrow> bet list \<Rightarrow> (string \<times> real) list" where
  "settle running [] = running"
| "settle running (r # rs) =
     settle (AList.update (book r) (dict_get running (book r) 0 + profit r) running) rs"

text \<open>
  From the specification, not from the code: the cumulative profit of a record as
  ``the running sum of profit in ascending date order, ties broken by original
  insertion order''. The record at index \<open>i\<close> gets the profit of every record that is
  dated earlier, or dated the same day and inserted no later.
\<close>

definition cumulative_profit_by_date :: "bet list \<Rightarrow> real list" where
  "cumulative_profit_by_date rs =
     map (\<lambda>i. sum_list (map (\<lambda>j. profit (rs ! j))
            (filter (\<lambda>j. date (rs ! j) < date (rs ! i) \<or>
                          (date (rs ! j) = date (rs ! i) \<and> j \<le> i))
               [0..<length rs])))
         [0..<length rs]"

text \<open>
  From the specification, not from the code: collapsing the snapshot rows to one per
  date ``keeping the last snapshot for a date''.
\<close>

fun keep_last :: "snapshot list \<Rightarrow> snapshot list" where
  "keep_last [] = []"
| "keep_last (s # ss) =
     (if snap_date s \<in> snap_date ` set ss then keep_last ss else s # keep_last ss)"

subsection \<open>Sample ledgers\<close>

definition sample_bet :: bet where
  "sample_bet = \<lparr>date = 1, sport = ''NBA'', market = ''Moneyline'', book = ''FanDuel'',
     bet_type = ''Single'', selection = ''LAL -3'', odds_american = - 110,
     odds_decimal = Fin (21 / 11), stake = 10, result = ''Win'', profit = 5,
     expected_value = 0, closing_line = [], notes_text = []\<rparr>"

text \<open>Two bets entered in the opposite order of their dates.\<close>

definition ledger_out_of_order :: dataframe where
  "ledger_out_of_order =
     \<lparr>rows = [sample_bet\<lparr>date := 2, profit := 1\<rparr>, sample_bet\<lparr>date := 1, profit := 2\<rparr>],
      cumulative_profit = None\<rparr>"

text \<open>Two bets of the same day at the same book, each won for 5.\<close>

definition ledger_same_day :: dataframe where
  "ledger_same_day = \<lparr>rows = [sample_bet, sample_bet], cumulative_profit = None\<rparr>"

text \<open>A bet at a book that is not configured, dated after a bet at FanDuel.\<close>

definition ledger_late_book :: dataframe where
  "ledger_late_book =
     \<lparr>rows = [sample_bet\<lparr>date := 2, book := ''Bovada''\<rparr>, sample_bet],
      cumulative_profit = None\<rparr>"

subsection \<open>Double arithmetic\<close>

text \<open>
  The definitions above add and divide exactly. The program adds and divides IEEE
  binary64 numbers: each operation returns the double nearest to the exact result, a
  tie going to the double whose last mantissa bit is even. \<open>to_double\<close> is that
  rounding. A double is an integer multiple of its quantum: the power of two that lies
  52 binary places below the largest power of two not above its magnitude, and that is
  never smaller than 2 to the power -1074 (the subnormal numbers). Overflow to
  infinity is not modelled.
\<close>

definition round_half_even :: "real \<Rightarrow> int" where
  "round_half_even x =
     (let f = \<lfloor>x\<rfloor>; d = x - of_int f
      in if d < 1 / 2 then f else if 1 / 2 < d then f + 1 else if even f then f else f + 1)"

definition min_quantum :: real where
  "min_quantum = 1 / 2 ^ 1074"

text \<open>
  The quantum of \<open>x\<close>, found by halving or doubling \<open>x\<close> until it lies between 1 and 2;
  the fuel covers the whole exponent range of binary64.
\<close>

fun quantum_from :: "nat \<Rightarrow> real \<Rightarrow> real \<Rightarrow> real" where
  "quantum_from 0 q x = q"
| "quantum_from (Suc n) q x =
     (if 2 \<le> x then quantum_from n (q * 2) (x / 2)
      else if x < 1 \<and> min_quantum < q then quantum_from n (q / 2) (x * 2)
      else q)"

definition quantum :: "real \<Rightarrow> real" where
  "quantum x = quantum_from 1100 (1 / 2 ^ 52) \<bar>x\<bar>"

definition to_double :: "real \<Rightarrow> real" where
  "to_double x = (if x = 0 then 0 else quantum x * of_int (round_half_even (x / quantum x)))"

text \<open>
  The functions of the program with every addition and division rounded by \<open>rnd\<close>.
  \<^verbatim>\<open>cumsum\<close> adds from left to right. The order in which \<^verbatim>\<open>sum()\<close> adds the cells of a
  column is the library's own, so the column sum is the parameter \<open>fsum\<close>; for a column
  of two cells it is one addition. With \<open>rnd\<close> the identity and \<open>fsum\<close> the exact sum
  these are the functions above (lemma \<open>exact_instance\<close>).
\<close>

fun cumsum_from_fp :: "(real \<Rightarrow> real) \<Rightarrow> real \<Rightarrow> real list \<Rightarrow> real list" where
  "cumsum_from_fp rnd acc [] = []"
| "cumsum_from_fp rnd acc (x # xs) = rnd (acc + x) # cumsum_from_fp rnd (rnd (acc + x)) xs"

fun cumsum_fp :: "(real \<Rightarrow> real) \<Rightarrow> real list \<Rightarrow> real list" where
  "cumsum_fp rnd [] = []"
| "cumsum_fp rnd (x # xs) = x # cumsum_from_fp rnd x xs"

definition py_div_fp :: "(real \<Rightarrow> real) \<Rightarrow> real \<Rightarrow> real \<Rightarrow> py_error + real" where
  "py_div_fp rnd a b = (if b = 0 then Inl ZeroDivisionError else Inr (rnd (a / b)))"

definition compute_metrics_fp ::
  "(real \<Rightarrow> real) \<Rightarrow> (real list \<Rightarrow> real) \<Rightarrow> dataframe \<Rightarrow> dataframe \<times> (py_error + metrics)" where
  "compute_metrics_fp rnd fsum df =
     (let df1 = df\<lparr>cumulative_profit := Some (map Fin (cumsum_fp rnd (map profit (rows df))))\<rparr>;
          total_staked = fsum (map stake (rows df1));
          total_profit = fsum (map profit (rows df1));
          n = length (rows df1);
          wins = length (filter (\<lambda>r. profit r > 0) (rows df1))
      in (df1,
          (case (if total_staked \<noteq> 0 then py_div_fp rnd total_profit total_staked else Inr 0) of
             Inl e \<Rightarrow> Inl e
           | Inr roi \<Rightarrow>
               (case (if n \<noteq> 0 then py_div_fp rnd (real wins) (real n) else Inr 0) of
                  Inl e \<Rightarrow> Inl e
                | Inr win_rate \<Rightarrow>
                    Inr \<lparr>Total_Bets = n, Total_Staked = total_staked,
                         Total_Profit = total_profit, ROI = roi,
                         Win_Rate = win_rate\<rparr>))))"

fun walk_fp :: "(real \<Rightarrow> real) \<Rightarrow> (string \<times> real) list \<Rightarrow> bet list \<Rightarrow> snapshot list" where
  "walk_fp rnd running [] = []"
| "walk_fp rnd running (r # rs) =
     (let b = book r;
          running1 = AList.update b (rnd (dict_get running b 0 + profit r)) running;
          snap = \<lparr>snap_date = date r, balances = running1\<rparr>
      in snap # walk_fp rnd running1 rs)"

definition bankroll_simulation_fp ::
  "(real \<Rightarrow> real) \<Rightarrow> dataframe \<Rightarrow> dataframe \<times> (py_error + snap_frame)" where
  "bankroll_simulation_fp rnd df =
     (let sorted_rows = sort_values_date (rows df);
          running = map (\<lambda>b. (b, dict_get STARTING_BANKROLLS b 0))
                        (unique (map book sorted_rows));
          out_rows = walk_fp rnd running sorted_rows
      in (df,
          (case drop_duplicates_date (DataFrame out_rows) of
             Inl e \<Rightarrow> Inl e
           | Inr f \<Rightarrow> sort_values_snap f)))"

text \<open>A column sum that adds from left to right.\<close>

fun sum_in_order :: "(real \<Rightarrow> real) \<Rightarrow> real list \<Rightarrow> real" where
  "sum_in_order rnd [] = 0"
| "sum_in_order rnd (x # xs) = foldl (\<lambda>s y. rnd (s + y)) x xs"

text \<open>
  The ledger of the specification's example on days 1 and 2. The profit 9.09 is the
  double that the program holds for this decimal.
\<close>

definition ledger_spec_example :: dataframe where
  "ledger_spec_example =
     \<lparr>rows = [sample_bet\<lparr>date := 1, book := ''FanDuel'', stake := 10,
                           profit := to_double 9.09\<rparr>,
              sample_bet\<lparr>date := 2, book := ''FanDuel'', stake := 10, profit := - 10\<rparr>],
      cumulative_profit = None\<rparr>"

section \<open>Properties\<close>

subsection \<open>Odds conversion\<close>

text \<open>
  Claim C5. For every numeric odds value \<open>x\<close> (a number, or a string that
  \<^verbatim>\<open>float\<close> reads as the number \<open>x\<close>): if \<open>x > 0\<close> the result is \<open>1 + x / 100\<close>, and
  if \<open>x < 0\<close> the result is \<open>1 + 100 / |x|\<close>; no exception is raised in either case.
\<close>

theorem american_to_decimal_rule:
  "py_float parse v = Inr (Fin x) \<Longrightarrow>
     (0 < x \<longrightarrow> american_to_decimal parse v = Inr (Fin (1 + x / 100))) \<and>
     (x < 0 \<longrightarrow> american_to_decimal parse v = Inr (Fin (1 + 100 / \<bar>x\<bar>)))"
  by (simp add: american_to_decimal_def one_plus_def)

theorem american_to_decimal_rule_witness:
  "py_float (\<lambda>s. None) (PyNum 150) = Inr (Fin 150) \<and> (0::real) < 150 \<and>
   american_to_decimal (\<lambda>s. None) (PyNum 150) = Inr (Fin (5 / 2)) \<and>
   py_float (\<lambda>s. None) (PyNum (- 110)) = Inr (Fin (- 110)) \<and> (- 110 :: real) < 0 \<and>
   american_to_decimal (\<lambda>s. None) (PyNum (- 110)) = Inr (Fin (21 / 11))"
  using american_to_decimal_rule [of "\<lambda>s. None" "PyNum 150" 150]
        american_to_decimal_rule [of "\<lambda>s. None" "PyNum (- 110)" "- 110"]
  by simp

text \<open>
  Claim C4 says that odds equal to zero give a not-a-number that is passed on without an
  exception. The conversion of zero succeeds, zero is not positive, and the second
  branch divides \<open>100.0\<close> by \<open>abs(0.0)\<close> outside the \<^verbatim>\<open>try\<close>: the call raises
  \<^verbatim>\<open>ZeroDivisionError\<close>.
\<close>

theorem american_to_decimal_zero_raises:
  "american_to_decimal parse (PyNum 0) = Inl ZeroDivisionError"
  by (simp add: american_to_decimal_def one_plus_def)

text \<open>The other inputs of that claim do give a not-a-number, and no exception.\<close>

lemma american_to_decimal_missing: "american_to_decimal parse PyNone = Inr NaN"
  by (simp add: american_to_decimal_def)

lemma american_to_decimal_not_a_literal:
  "parse s = None \<Longrightarrow> american_to_decimal parse (PyStr s) = Inr NaN"
  by (simp add: american_to_decimal_def)

subsection \<open>Metrics\<close>

text \<open>
  Claim C6. \<^verbatim>\<open>compute_metrics\<close> never raises: on every ledger it returns the metrics,
  with ROI the total profit over the total stake, and 0 when the total stake is 0; with
  the win rate the number of rows of positive profit over the number of rows, and 0 on
  the empty ledger; and on the empty ledger Total Bets, ROI and the win rate are 0.
\<close>

theorem compute_metrics_guarded:
  "snd (compute_metrics df) =
     Inr \<lparr>Total_Bets = length (rows df),
          Total_Staked = sum_list (map stake (rows df)),
          Total_Profit = sum_list (map profit (rows df)),
          ROI = (if sum_list (map stake (rows df)) = 0 then 0
                 else sum_list (map profit (rows df)) / sum_list (map stake (rows df))),
          Win_Rate = (if rows df = [] then 0
                      else real (length (filter (\<lambda>r. profit r > 0) (rows df))) /
                           real (length (rows df)))\<rparr> \<and>
   (rows df = [] \<longrightarrow>
      snd (compute_metrics df) =
        Inr \<lparr>Total_Bets = 0, Total_Staked = 0, Total_Profit = 0, ROI = 0, Win_Rate = 0\<rparr>)"
  by (simp add: compute_metrics_def py_div_def Let_def)

theorem compute_metrics_guarded_witness:
  "rows \<lparr>rows = [], cumulative_profit = None\<rparr> = [] \<and>
   snd (compute_metrics \<lparr>rows = [], cumulative_profit = None\<rparr>) =
     Inr \<lparr>Total_Bets = 0, Total_Staked = 0, Total_Profit = 0, ROI = 0, Win_Rate = 0\<rparr>"
  using compute_metrics_guarded [of "\<lparr>rows = [], cumulative_profit = None\<rparr>"]
  by simp

subsection \<open>Cumulative profit\<close>

text \<open>
  What the column holds: at index \<open>i\<close> the sum of the profits of the rows at indices
  \<open>0\<close> to \<open>i\<close>, in the order in which the frame holds them.
\<close>

lemma cumsum_from_nth:
  "i < length xs \<Longrightarrow> cumsum_from acc xs ! i = acc + sum_list (take (Suc i) xs)"
proof (induction xs arbitrary: acc i)
  case Nil
  then show ?case by simp
next
  case (Cons x xs)
  then show ?case by (cases i) (simp_all add: add.assoc)
qed

lemma length_cumsum_from: "length (cumsum_from acc xs) = length xs"
  by (induction xs arbitrary: acc) simp_all

lemma cumulative_profit_running_sum:
  "\<exists>c. cumulative_profit (fst (compute_metrics df)) = Some c \<and>
       length c = length (rows df) \<and>
       (\<forall>i < length (rows df). c ! i = Fin (sum_list (map profit (take (Suc i) (rows df)))))"
  by (simp add: compute_metrics_def Let_def cumsum_def length_cumsum_from cumsum_from_nth
      take_map)

text \<open>
  When the frame holds its rows in ascending date order, the column is the running
  sum by date that the specification names.
\<close>

lemma map_nth_upt_take:
  "k \<le> length xs \<Longrightarrow> map (\<lambda>j. f (xs ! j)) [0..<k] = map f (take k xs)"
  by (rule nth_equalityI) simp_all

lemma filter_upt_sorted_dates:
  assumes "sorted (map date rs)" and "i < length rs"
  shows "filter (\<lambda>j. date (rs ! j) < date (rs ! i) \<or> (date (rs ! j) = date (rs ! i) \<and> j \<le> i))
           [0..<length rs] = [0..<Suc i]"
proof -
  have le: "date (rs ! j) \<le> date (rs ! k)" if "j \<le> k" "k < length rs" for j k
    using assms(1) that by (simp add: sorted_iff_nth_mono)
  have "filter (\<lambda>j. date (rs ! j) < date (rs ! i) \<or> (date (rs ! j) = date (rs ! i) \<and> j \<le> i))
           [0..<length rs] = filter (\<lambda>j. j \<le> i) [0..<length rs]"
  proof (rule filter_cong [OF refl])
    fix j assume "j \<in> set [0..<length rs]"
    then have j: "j < length rs" by simp
    show "(date (rs ! j) < date (rs ! i) \<or> (date (rs ! j) = date (rs ! i) \<and> j \<le> i)) = (j \<le> i)"
    proof (cases "j \<le> i")
      case True
      with le [of j i] assms(2) show ?thesis by auto
    next
      case False
      with le [of i j] j show ?thesis by auto
    qed
  qed
  also have "\<dots> = [0..<Suc i]"
  proof -
    have "[0..<length rs] = [0..<Suc i] @ [Suc i..<length rs]"
      using assms(2) by (metis Suc_leI le0 upt_add_eq_append le_add_diff_inverse)
    then show ?thesis by simp
  qed
  finally show ?thesis .
qed

lemma cumulative_profit_when_sorted:
  assumes "sorted (map date (rows df))"
  shows "cumulative_profit (fst (compute_metrics df)) =
           Some (map Fin (cumulative_profit_by_date (rows df)))"
proof -
  let ?rs = "rows df"
  have "cumsum (map profit ?rs) = cumulative_profit_by_date ?rs"
  proof (rule nth_equalityI)
    show "length (cumsum (map profit ?rs)) = length (cumulative_profit_by_date ?rs)"
      by (simp add: cumsum_def length_cumsum_from cumulative_profit_by_date_def)
  next
    fix i assume "i < length (cumsum (map profit ?rs))"
    then have i: "i < length ?rs" by (simp add: cumsum_def length_cumsum_from)
    then have "cumulative_profit_by_date ?rs ! i =
        sum_list (map (\<lambda>j. profit (?rs ! j)) [0..<Suc i])"
      by (simp add: cumulative_profit_by_date_def filter_upt_sorted_dates [OF assms i]
          del: upt_Suc)
    also have "\<dots> = sum_list (map profit (take (Suc i) ?rs))"
      using i by (simp only: map_nth_upt_take [of "Suc i" ?rs profit, OF Suc_leI])
    finally show "cumsum (map profit ?rs) ! i = cumulative_profit_by_date ?rs ! i"
      using i by (simp add: cumsum_def cumsum_from_nth take_map)
  qed
  then show ?thesis
    by (simp add: compute_metrics_def Let_def)
qed

text \<open>
  Claim C1 says that the cumulative profit of a record is the running sum in ascending
  date order. \<^verbatim>\<open>compute_metrics\<close> takes the running sum in index order and never sorts:
  for a bet of profit 1 dated day 2 entered before a bet of profit 2 dated day 1 the
  column is 1, 3, where the running sum by date gives 3, 2.
\<close>

theorem cumulative_profit_in_index_order:
  "cumulative_profit (fst (compute_metrics ledger_out_of_order)) = Some [Fin 1, Fin 3] \<and>
   cumulative_profit_by_date (rows ledger_out_of_order) = [3, 2]"
  by (simp add: compute_metrics_def ledger_out_of_order_def sample_bet_def cumsum_def
      cumulative_profit_by_date_def Let_def)

subsection \<open>Frame effects\<close>

text \<open>
  Claim C9. \<^verbatim>\<open>compute_metrics\<close> writes the column \<^verbatim>\<open>cumulative_profit\<close> into the
  caller's frame and leaves the rows, with every field of theirs, as they were;
  \<^verbatim>\<open>bankroll_simulation\<close> leaves the caller's frame as it was.
\<close>

theorem frame_effects:
  "fst (compute_metrics df) =
     df\<lparr>cumulative_profit := Some (map Fin (cumsum (map profit (rows df))))\<rparr> \<and>
   rows (fst (compute_metrics df)) = rows df \<and>
   fst (bankroll_simulation df) = df"
  by (simp add: compute_metrics_def bankroll_simulation_def Let_def)

subsection \<open>Bankroll simulation\<close>

text \<open>
  Claim C3 says that the empty ledger gives an empty snapshot sequence. The list of
  snapshot rows is empty, so the frame built from it has no column; dropping duplicates
  returns that empty frame, and sorting it by \<^verbatim>\<open>date\<close> raises \<^verbatim>\<open>KeyError\<close>.
\<close>

theorem bankroll_simulation_empty_raises:
  "bankroll_simulation \<lparr>rows = [], cumulative_profit = c\<rparr> =
     (\<lparr>rows = [], cumulative_profit = c\<rparr>, Inl (KeyError ''date''))"
  by (simp add: bankroll_simulation_def sort_values_date_def unique_def DataFrame_def
      drop_duplicates_date_def sort_values_snap_def)

subsection \<open>The snapshots of a non-empty ledger\<close>

lemma walk_mem:
  "s \<in> set (walk running rs) \<Longrightarrow>
     \<exists>ps r qs. rs = ps @ r # qs \<and> s = \<lparr>snap_date = date r, balances = settle running (ps @ [r])\<rparr>"
proof (induction rs arbitrary: running)
  case Nil
  then show ?case by simp
next
  case (Cons a rs)
  let ?run = "AList.update (book a) (dict_get running (book a) 0 + profit a) running"
  from Cons.prems have "s = \<lparr>snap_date = date a, balances = ?run\<rparr> \<or> s \<in> set (walk ?run rs)"
    by (simp add: Let_def)
  then show ?case
  proof
    assume "s = \<lparr>snap_date = date a, balances = ?run\<rparr>"
    then have "a # rs = [] @ a # rs \<and> s = \<lparr>snap_date = date a, balances = settle running ([] @ [a])\<rparr>"
      by simp
    then show ?thesis by blast
  next
    assume "s \<in> set (walk ?run rs)"
    from Cons.IH [OF this] obtain ps r qs where
      "rs = ps @ r # qs" "s = \<lparr>snap_date = date r, balances = settle ?run (ps @ [r])\<rparr>"
      by blast
    then have "a # rs = (a # ps) @ r # qs \<and>
        s = \<lparr>snap_date = date r, balances = settle running ((a # ps) @ [r])\<rparr>"
      by simp
    then show ?thesis by blast
  qed
qed

lemma settle_lookup:
  "map_of (settle running rs) b =
     (if b \<in> fst ` set running \<union> book ` set rs
      then Some (dict_get running b 0 + sum_list (map profit (filter (\<lambda>r. book r = b) rs)))
      else None)"
proof (induction rs arbitrary: running)
  case Nil
  show ?case
    by (auto simp: dict_get_def map_of_eq_None_iff split: option.splits)
next
  case (Cons a rs)
  show ?case
    by (simp add: Cons.IH update_conv dict_get_def dom_update image_iff)
qed

lemma sort_key_Nil_iff: "sort_key f xs = [] \<longleftrightarrow> xs = []"
  using length_sort [of f xs] by (cases xs) auto

lemma set_unique_from: "set (unique_from seen xs) = set xs - set seen"
  by (induction xs arbitrary: seen) auto

lemma set_unique: "set (unique xs) = set xs"
  by (simp add: unique_def set_unique_from)

lemma walk_Nil_iff: "walk running rs = [] \<longleftrightarrow> rs = []"
  by (cases rs) (simp_all add: Let_def)

lemma keep_first_Nil_iff: "keep_first [] ss = [] \<longleftrightarrow> ss = []"
  by (cases ss) simp_all

lemma seeded_lookup:
  "dict_get (map (\<lambda>b. (b, f b)) ks) b d = (if b \<in> set ks then f b else d)"
  by (induction ks) (auto simp: dict_get_def)

lemma settle_keys:
  "book ` set rs \<subseteq> fst ` set running \<Longrightarrow> map fst (settle running rs) = map fst running"
proof (induction rs arbitrary: running)
  case Nil
  show ?case by simp
next
  case (Cons a rs)
  let ?run = "AList.update (book a) (dict_get running (book a) 0 + profit a) running"
  from Cons.prems have a: "book a \<in> fst ` set running" by simp
  then have keys: "map fst ?run = map fst running" by (simp add: update_keys)
  then have "fst ` set ?run = fst ` set running" by (metis set_map)
  with Cons.prems have "book ` set rs \<subseteq> fst ` set ?run" by simp
  from Cons.IH [OF this] keys show ?case by simp
qed

lemma walk_keys:
  assumes "book ` set rs \<subseteq> fst ` set running" and "s \<in> set (walk running rs)"
  shows "map fst (balances s) = map fst running"
proof -
  from walk_mem [OF assms(2)] obtain ps r qs where
    rs: "rs = ps @ r # qs" and s: "s = \<lparr>snap_date = date r, balances = settle running (ps @ [r])\<rparr>"
    by blast
  from assms(1) rs have "book ` set (ps @ [r]) \<subseteq> fst ` set running" by auto
  from settle_keys [OF this] s show ?thesis by simp
qed

lemma snapshot_keys_walk:
  assumes "book ` set rs \<subseteq> fst ` set running" and "s \<in> set (walk running rs)"
  shows "snapshot_keys s = ''date'' # map (\<lambda>b. ''balance__'' @ b) (map fst running)"
proof -
  have "map (\<lambda>(bk, v). ''balance__'' @ bk) (balances s) =
        map (\<lambda>b. ''balance__'' @ b) (map fst (balances s))"
    by (simp add: case_prod_unfold comp_def)
  with walk_keys [OF assms] show ?thesis by (simp add: snapshot_keys_def)
qed

lemma bankroll_simulation_nonempty:
  assumes "rows df \<noteq> []"
  shows "snd (bankroll_simulation df) =
     Inr \<lparr>columns = ''date'' # map (\<lambda>b. ''balance__'' @ b)
                           (unique (map book (sort_values_date (rows df)))),
          snaps = sort_key snap_date (keep_first []
            (walk (map (\<lambda>b. (b, dict_get STARTING_BANKROLLS b 0))
                       (unique (map book (sort_values_date (rows df)))))
                  (sort_values_date (rows df))))\<rparr>"
proof -
  let ?rs = "sort_values_date (rows df)"
  let ?running = "map (\<lambda>b. (b, dict_get STARTING_BANKROLLS b 0)) (unique (map book ?rs))"
  let ?out = "walk ?running ?rs"
  have ne: "?rs \<noteq> []"
    using assms by (simp add: sort_values_date_def sort_key_Nil_iff)
  then obtain s ss where out: "?out = s # ss"
    by (cases ?out) (simp_all add: walk_Nil_iff)
  have sub: "book ` set ?rs \<subseteq> fst ` set ?running"
    by (simp add: set_unique image_image)
  have "s \<in> set ?out" using out by simp
  from snapshot_keys_walk [OF sub this]
  have keys: "snapshot_keys s = ''date'' # map (\<lambda>b. ''balance__'' @ b) (unique (map book ?rs))"
    by (simp add: comp_def)
  show ?thesis
    using out keys
    by (simp add: bankroll_simulation_def Let_def DataFrame_def drop_duplicates_date_def
        sort_values_snap_def)
qed

lemma starting_balance:
  "dict_get STARTING_BANKROLLS b 0 =
     (if b \<in> {''FanDuel'', ''DraftKings'', ''Caesars''} then 200 else 0)"
  by (simp add: dict_get_def STARTING_BANKROLLS_def)

lemma sorted_prefix_le:
  assumes "sort_key f xs = ps @ r # qs" and "p \<in> set (ps @ [r])"
  shows "f p \<le> f r"
proof -
  have "sorted (map f (ps @ r # qs))"
    using assms(1) by (metis sorted_sort_key)
  then show ?thesis
    using assms(2) by (auto simp: sorted_append)
qed

text \<open>
  The returned frame has one row for each date of the ledger, in ascending order.
\<close>

lemma snap_date_walk: "map snap_date (walk running rs) = map date rs"
  by (induction rs arbitrary: running) (simp_all add: Let_def)

lemma set_dates_keep_first:
  "snap_date ` set (keep_first seen ss) = snap_date ` set ss - set seen"
  by (induction ss arbitrary: seen) auto

lemma distinct_keep_first:
  "distinct (map snap_date (keep_first seen ss))"
proof (induction ss arbitrary: seen)
  case Nil
  show ?case by simp
next
  case (Cons s ss)
  show ?case
    using Cons.IH by (simp add: set_dates_keep_first)
qed

lemma one_row_per_date:
  assumes "rows df \<noteq> []"
  shows "\<exists>f. snd (bankroll_simulation df) = Inr f \<and>
           sorted (map snap_date (snaps f)) \<and> distinct (map snap_date (snaps f)) \<and>
           set (map snap_date (snaps f)) = date ` set (rows df)"
proof -
  let ?rs = "sort_values_date (rows df)"
  let ?running = "map (\<lambda>b. (b, dict_get STARTING_BANKROLLS b 0)) (unique (map book ?rs))"
  let ?kept = "keep_first [] (walk ?running ?rs)"
  have "set (map snap_date ?kept) = set (map snap_date (walk ?running ?rs))"
    using set_dates_keep_first [of "[]" "walk ?running ?rs"] by simp
  also have "\<dots> = date ` set (rows df)"
    by (simp add: snap_date_walk sort_values_date_def)
  finally have dates: "set (map snap_date (sort_key snap_date ?kept)) = date ` set (rows df)"
    by simp
  have "distinct (map snap_date ?kept)"
    by (rule distinct_keep_first)
  then have dist: "distinct (map snap_date (sort_key snap_date ?kept))"
    by (simp add: distinct_map)
  have srt: "sorted (map snap_date (sort_key snap_date ?kept))"
    by (rule sorted_sort_key)
  show ?thesis
    unfolding bankroll_simulation_nonempty [OF assms]
    using dates dist srt by (intro exI conjI) (rule refl, simp_all)
qed

text \<open>
  Each returned row is the snapshot taken after the first row of its date, in sorted
  order: every row before it is dated earlier, and the balance of a book is its
  starting balance plus the profit of its bets among the rows up to and including
  that one.
\<close>

lemma keep_first_split:
  "s \<in> set (keep_first seen ss) \<Longrightarrow>
     \<exists>as bs. ss = as @ s # bs \<and> snap_date s \<notin> snap_date ` set as \<and> snap_date s \<notin> set seen"
proof (induction ss arbitrary: seen)
  case Nil
  then show ?case by simp
next
  case (Cons a ss)
  show ?case
  proof (cases "snap_date a \<in> set seen")
    case True
    with Cons.prems have "s \<in> set (keep_first seen ss)" by simp
    from Cons.IH [OF this] obtain as bs where
      *: "ss = as @ s # bs" "snap_date s \<notin> snap_date ` set as" "snap_date s \<notin> set seen"
      by blast
    from * True have "a # ss = (a # as) @ s # bs \<and> snap_date s \<notin> snap_date ` set (a # as) \<and>
        snap_date s \<notin> set seen"
      by auto
    then show ?thesis by blast
  next
    case False
    with Cons.prems have "s = a \<or> s \<in> set (keep_first (snap_date a # seen) ss)" by auto
    then show ?thesis
    proof
      assume "s = a"
      with False have "a # ss = [] @ s # ss \<and> snap_date s \<notin> snap_date ` set [] \<and>
          snap_date s \<notin> set seen"
        by simp
      then show ?thesis by blast
    next
      assume "s \<in> set (keep_first (snap_date a # seen) ss)"
      from Cons.IH [OF this] obtain as bs where
        *: "ss = as @ s # bs" "snap_date s \<notin> snap_date ` set as"
           "snap_date s \<notin> set (snap_date a # seen)"
        by blast
      then have "a # ss = (a # as) @ s # bs \<and> snap_date s \<notin> snap_date ` set (a # as) \<and>
          snap_date s \<notin> set seen"
        by auto
      then show ?thesis by blast
    qed
  qed
qed

lemma walk_split:
  "walk running rs = as @ s # bs \<Longrightarrow>
     \<exists>ps r qs. rs = ps @ r # qs \<and> as = walk running ps \<and>
       s = \<lparr>snap_date = date r, balances = settle running (ps @ [r])\<rparr>"
proof (induction rs arbitrary: running as)
  case Nil
  then show ?case by simp
next
  case (Cons a rs)
  let ?run = "AList.update (book a) (dict_get running (book a) 0 + profit a) running"
  show ?case
  proof (cases as)
    case Nil
    with Cons.prems have "a # rs = [] @ a # rs \<and> as = walk running [] \<and>
        s = \<lparr>snap_date = date a, balances = settle running ([] @ [a])\<rparr>"
      by (simp add: Let_def)
    then show ?thesis by blast
  next
    case (Cons a' as')
    with Cons.prems have hd: "a' = \<lparr>snap_date = date a, balances = ?run\<rparr>"
      and tl: "walk ?run rs = as' @ s # bs"
      by (simp_all add: Let_def)
    from Cons.IH [OF tl] obtain ps r qs where
      *: "rs = ps @ r # qs" "as' = walk ?run ps"
         "s = \<lparr>snap_date = date r, balances = settle ?run (ps @ [r])\<rparr>"
      by blast
    with Cons hd have "a # rs = (a # ps) @ r # qs \<and> as = walk running (a # ps) \<and>
        s = \<lparr>snap_date = date r, balances = settle running ((a # ps) @ [r])\<rparr>"
      by (simp add: Let_def)
    then show ?thesis by blast
  qed
qed

lemma output_snapshot:
  assumes "s \<in> set (sort_key snap_date (keep_first []
             (walk (map (\<lambda>b. (b, dict_get STARTING_BANKROLLS b 0))
                        (unique (map book (sort_values_date (rows df)))))
                   (sort_values_date (rows df)))))"
  shows "\<exists>ps r qs. sort_values_date (rows df) = ps @ r # qs \<and> snap_date s = date r \<and>
           (\<forall>p \<in> set ps. date p < date r) \<and>
           (\<forall>b \<in> book ` set (rows df).
              map_of (balances s) b =
                Some (dict_get STARTING_BANKROLLS b 0 +
                      sum_list (map profit (filter (\<lambda>x. book x = b) (ps @ [r])))))"
proof -
  let ?rs = "sort_values_date (rows df)"
  let ?ks = "unique (map book ?rs)"
  let ?running = "map (\<lambda>b. (b, dict_get STARTING_BANKROLLS b 0)) ?ks"
  have ks: "set ?ks = book ` set (rows df)"
    by (simp add: set_unique sort_values_date_def)
  from assms have "s \<in> set (keep_first [] (walk ?running ?rs))" by simp
  from keep_first_split [OF this] obtain as bs where
    out: "walk ?running ?rs = as @ s # bs" and first: "snap_date s \<notin> snap_date ` set as"
    by blast
  from walk_split [OF out] obtain ps r qs where
    split: "?rs = ps @ r # qs" and as: "as = walk ?running ps" and
    s_eq: "s = \<lparr>snap_date = date r, balances = settle ?running (ps @ [r])\<rparr>"
    by blast
  have dates_as: "snap_date ` set as = date ` set ps"
    using as snap_date_walk [of ?running ps] by (metis set_map)
  have earlier: "date p < date r" if "p \<in> set ps" for p
  proof -
    have "date p \<le> date r"
      using sorted_prefix_le [of date "rows df" ps r qs p] split that
      by (simp add: sort_values_date_def)
    moreover have "date p \<noteq> date r"
    proof
      assume "date p = date r"
      with that have "date r \<in> date ` set ps" by (metis imageI)
      with first dates_as show False by (simp add: s_eq)
    qed
    ultimately show ?thesis by simp
  qed
  have bal: "map_of (balances s) b =
      Some (dict_get STARTING_BANKROLLS b 0 +
            sum_list (map profit (filter (\<lambda>x. book x = b) (ps @ [r]))))"
    if "b \<in> book ` set (rows df)" for b
  proof -
    have "b \<in> fst ` set ?running"
      using that ks by (simp add: image_image)
    moreover have "dict_get ?running b 0 = dict_get STARTING_BANKROLLS b 0"
      using that ks by (simp add: seeded_lookup)
    ultimately show ?thesis
      by (simp add: s_eq settle_lookup)
  qed
  from split s_eq earlier bal show ?thesis
    by (intro exI [of _ ps] exI [of _ r] exI [of _ qs]) simp
qed

lemma snapshot_after_first_bet_of_day:
  assumes "rows df \<noteq> []"
  shows "\<exists>f. snd (bankroll_simulation df) = Inr f \<and>
     (\<forall>s \<in> set (snaps f).
        \<exists>ps r qs. sort_values_date (rows df) = ps @ r # qs \<and> snap_date s = date r \<and>
           (\<forall>p \<in> set ps. date p < date r) \<and>
           (\<forall>b \<in> book ` set (rows df).
              map_of (balances s) b =
                Some (dict_get STARTING_BANKROLLS b 0 +
                      sum_list (map profit (filter (\<lambda>x. book x = b) (ps @ [r]))))))"
proof -
  let ?rs = "sort_values_date (rows df)"
  let ?ks = "unique (map book ?rs)"
  let ?out = "walk (map (\<lambda>b. (b, dict_get STARTING_BANKROLLS b 0)) ?ks) ?rs"
  let ?f = "\<lparr>columns = ''date'' # map (\<lambda>b. ''balance__'' @ b) ?ks,
            snaps = sort_key snap_date (keep_first [] ?out)\<rparr>"
  have res: "snd (bankroll_simulation df) = Inr ?f"
    by (rule bankroll_simulation_nonempty [OF assms])
  have each: "\<exists>ps r qs. ?rs = ps @ r # qs \<and> snap_date s = date r \<and>
           (\<forall>p \<in> set ps. date p < date r) \<and>
           (\<forall>b \<in> book ` set (rows df).
              map_of (balances s) b =
                Some (dict_get STARTING_BANKROLLS b 0 +
                      sum_list (map profit (filter (\<lambda>x. book x = b) (ps @ [r])))))"
    if "s \<in> set (snaps ?f)" for s
  proof -
    from that have "s \<in> set (sort_key snap_date (keep_first [] ?out))" by simp
    then show ?thesis by (rule output_snapshot)
  qed
  from res each show ?thesis
    by (intro exI [of _ ?f] conjI ballI)
qed

text \<open>
  Claim C2 says that of the snapshot rows of one date the last is kept, so that the row
  of a date holds the profit of every bet of that day. \<^verbatim>\<open>drop_duplicates\<close> keeps the
  first: of two bets of one day, each won for 5 at FanDuel, the only row shows 205, the
  balance after the first bet; the last snapshot of that day holds 210.
\<close>

theorem same_day_keeps_first_snapshot:
  "snd (bankroll_simulation ledger_same_day) =
     Inr \<lparr>columns = [''date'', ''balance__FanDuel''],
          snaps = [\<lparr>snap_date = 1, balances = [(''FanDuel'', 205)]\<rparr>]\<rparr> \<and>
   keep_last (walk [(''FanDuel'', 200)] (sort_values_date (rows ledger_same_day))) =
     [\<lparr>snap_date = 1, balances = [(''FanDuel'', 210)]\<rparr>]"
  by (simp add: bankroll_simulation_def ledger_same_day_def sample_bet_def
      sort_values_date_def unique_def STARTING_BANKROLLS_def dict_get_def DataFrame_def
      snapshot_keys_def drop_duplicates_date_def sort_values_snap_def Let_def)

text \<open>
  Claim C10. For a non-empty ledger the simulation returns a frame with at least one
  row, and every row has a balance for every book of the ledger (the frame has the
  column \<^verbatim>\<open>balance__\<close>\<open>b\<close>). A book whose bets are all dated after the row's date stands
  at its starting balance: 200 for the three configured books, 0 for any other.
\<close>

theorem every_book_in_every_snapshot:
  assumes "rows df \<noteq> []"
  shows "\<exists>f. snd (bankroll_simulation df) = Inr f \<and> snaps f \<noteq> [] \<and>
     (\<forall>s \<in> set (snaps f). \<forall>b \<in> book ` set (rows df).
        (''balance__'' @ b) \<in> set (columns f) \<and>
        (\<exists>v. map_of (balances s) b = Some v \<and>
          ((\<forall>r \<in> set (rows df). book r = b \<longrightarrow> snap_date s < date r) \<longrightarrow>
             v = (if b \<in> {''FanDuel'', ''DraftKings'', ''Caesars''} then 200 else 0))))"
proof -
  let ?rs = "sort_values_date (rows df)"
  let ?ks = "unique (map book ?rs)"
  let ?out = "walk (map (\<lambda>b. (b, dict_get STARTING_BANKROLLS b 0)) ?ks) ?rs"
  let ?f = "\<lparr>columns = ''date'' # map (\<lambda>b. ''balance__'' @ b) ?ks,
            snaps = sort_key snap_date (keep_first [] ?out)\<rparr>"
  have res: "snd (bankroll_simulation df) = Inr ?f"
    by (rule bankroll_simulation_nonempty [OF assms])
  have set_rs: "set ?rs = set (rows df)"
    by (simp add: sort_values_date_def)
  have ne: "snaps ?f \<noteq> []"
    using assms
    by (simp add: sort_key_Nil_iff keep_first_Nil_iff walk_Nil_iff sort_values_date_def)
  have col: "(''balance__'' @ b) \<in> set (columns ?f)" if "b \<in> book ` set (rows df)" for b
    using that by (simp add: set_unique set_rs)
  have bal: "\<exists>v. map_of (balances s) b = Some v \<and>
          ((\<forall>r \<in> set (rows df). book r = b \<longrightarrow> snap_date s < date r) \<longrightarrow>
             v = (if b \<in> {''FanDuel'', ''DraftKings'', ''Caesars''} then 200 else 0))"
    if s: "s \<in> set (snaps ?f)" and b: "b \<in> book ` set (rows df)" for s b
  proof -
    from s have "s \<in> set (sort_key snap_date (keep_first [] ?out))" by simp
    from output_snapshot [OF this] obtain ps r qs where
      split: "?rs = ps @ r # qs" and d: "snap_date s = date r" and
      earlier: "\<forall>p \<in> set ps. date p < date r" and
      look: "\<forall>b \<in> book ` set (rows df). map_of (balances s) b =
               Some (dict_get STARTING_BANKROLLS b 0 +
                     sum_list (map profit (filter (\<lambda>x. book x = b) (ps @ [r]))))"
      by blast
    let ?v = "dict_get STARTING_BANKROLLS b 0 +
              sum_list (map profit (filter (\<lambda>x. book x = b) (ps @ [r])))"
    have "?v = (if b \<in> {''FanDuel'', ''DraftKings'', ''Caesars''} then 200 else 0)"
      if later: "\<forall>x \<in> set (rows df). book x = b \<longrightarrow> snap_date s < date x"
    proof -
      have "book x \<noteq> b" if x: "x \<in> set (ps @ [r])" for x
      proof
        assume "book x = b"
        moreover from x split set_rs have "x \<in> set (rows df)" by auto
        ultimately have "date r < date x" using later d by simp
        moreover from x earlier have "date x \<le> date r" by auto
        ultimately show False by simp
      qed
      then have "filter (\<lambda>x. book x = b) (ps @ [r]) = []"
        unfolding filter_empty_conv by blast
      then show ?thesis
        by (simp add: starting_balance)
    qed
    with look b show ?thesis by blast
  qed
  from res ne col bal show ?thesis
    by (intro exI [of _ ?f] conjI ballI)
qed

theorem every_book_in_every_snapshot_witness:
  "rows ledger_late_book \<noteq> [] \<and>
   snd (bankroll_simulation ledger_late_book) =
     Inr \<lparr>columns = [''date'', ''balance__FanDuel'', ''balance__Bovada''],
          snaps = [\<lparr>snap_date = 1, balances = [(''FanDuel'', 205), (''Bovada'', 0)]\<rparr>,
                   \<lparr>snap_date = 2, balances = [(''FanDuel'', 205), (''Bovada'', 5)]\<rparr>]\<rparr>"
proof -
  have h: "rows ledger_late_book \<noteq> []" by (simp add: ledger_late_book_def)
  from every_book_in_every_snapshot [OF h] h show ?thesis
    by (simp add: bankroll_simulation_def ledger_late_book_def sample_bet_def
      sort_values_date_def unique_def STARTING_BANKROLLS_def dict_get_def DataFrame_def
      snapshot_keys_def drop_duplicates_date_def sort_values_snap_def Let_def)
qed

subsection \<open>The example of the specification\<close>

text \<open>
  With exact decimal arithmetic the two FanDuel bets of the example, of stake 10 and
  profit 9.09 on day \<open>D1\<close> and of stake 10 and profit -10 on a later day \<open>D2\<close>, give
  the figures of the specification: total stake 20, total profit -0.91, ROI -0.0455,
  win rate 0.5, and FanDuel at 199.09 on \<open>D2\<close>.
\<close>

lemma two_record_example_exact:
  assumes "D1 < D2"
    and "rows df = [b1\<lparr>date := D1, book := ''FanDuel'', stake := 10, profit := 9.09\<rparr>,
                    b2\<lparr>date := D2, book := ''FanDuel'', stake := 10, profit := - 10\<rparr>]"
  shows "snd (compute_metrics df) =
           Inr \<lparr>Total_Bets = 2, Total_Staked = 20, Total_Profit = - 0.91,
                ROI = - 0.0455, Win_Rate = 0.5\<rparr> \<and>
         snd (bankroll_simulation df) =
           Inr \<lparr>columns = [''date'', ''balance__FanDuel''],
                snaps = [\<lparr>snap_date = D1, balances = [(''FanDuel'', 209.09)]\<rparr>,
                         \<lparr>snap_date = D2, balances = [(''FanDuel'', 199.09)]\<rparr>]\<rparr>"
proof
  show "snd (compute_metrics df) =
           Inr \<lparr>Total_Bets = 2, Total_Staked = 20, Total_Profit = - 0.91,
                ROI = - 0.0455, Win_Rate = 0.5\<rparr>"
    using assms(2) by (simp add: compute_metrics_def py_div_def Let_def)
next
  show "snd (bankroll_simulation df) =
           Inr \<lparr>columns = [''date'', ''balance__FanDuel''],
                snaps = [\<lparr>snap_date = D1, balances = [(''FanDuel'', 209.09)]\<rparr>,
                         \<lparr>snap_date = D2, balances = [(''FanDuel'', 199.09)]\<rparr>]\<rparr>"
    using assms
    by (simp add: bankroll_simulation_def
      sort_values_date_def unique_def STARTING_BANKROLLS_def dict_get_def DataFrame_def
      snapshot_keys_def drop_duplicates_date_def sort_values_snap_def Let_def)
qed

text \<open>Evaluating the rounding on numerals.\<close>

lemma quantum_from_numeral:
  "quantum_from (numeral k) q x =
     (if 2 \<le> x then quantum_from (pred_numeral k) (q * 2) (x / 2)
      else if x < 1 \<and> min_quantum < q then quantum_from (pred_numeral k) (q / 2) (x * 2)
      else q)"
  by (simp add: numeral_eq_Suc)

lemmas double_eval =
  to_double_def quantum_def quantum_from_numeral min_quantum_def round_half_even_def Let_def

lemma double_909: "to_double 9.09 = 2558607538299863 / 2 ^ 48"
  by (simp add: double_eval)

text \<open>The exact functions are the rounded ones without rounding.\<close>

lemma cumsum_from_fp_id: "cumsum_from_fp id acc xs = cumsum_from acc xs"
  by (induction xs arbitrary: acc) simp_all

lemma cumsum_fp_id: "cumsum_fp id xs = cumsum xs"
  by (cases xs) (simp_all add: cumsum_def cumsum_from_fp_id)

lemma walk_fp_id: "walk_fp id running rs = walk running rs"
  by (induction rs arbitrary: running) (simp_all add: Let_def)

lemma py_div_fp_id: "py_div_fp id a b = py_div a b"
  by (simp add: py_div_fp_def py_div_def)

lemma exact_instance:
  "compute_metrics_fp id sum_list df = compute_metrics df \<and>
   bankroll_simulation_fp id df = bankroll_simulation df"
  unfolding compute_metrics_fp_def compute_metrics_def py_div_fp_id cumsum_fp_id
    bankroll_simulation_fp_def bankroll_simulation_def walk_fp_id
  by simp

text \<open>
  Claim C7, as amended. In double arithmetic the same two bets give total stake 20 and
  win rate 0.5 exactly, total profit -0.9100000000000001 and ROI -0.045500000000000006,
  each less than 1e-15 away from -0.91 and -0.0455, and the snapshot of \<open>D2\<close> shows
  FanDuel at the double 199.09 (that of \<open>D1\<close> at the double 209.09).
\<close>

theorem two_record_example_in_doubles:
  assumes "D1 < D2"
    and "\<And>a b. fsum [a, b] = to_double (a + b)"
    and "rows df = [b1\<lparr>date := D1, book := ''FanDuel'', stake := 10, profit := to_double 9.09\<rparr>,
                    b2\<lparr>date := D2, book := ''FanDuel'', stake := 10, profit := - 10\<rparr>]"
  shows "snd (compute_metrics_fp to_double fsum df) =
           Inr \<lparr>Total_Bets = 2, Total_Staked = 20,
                Total_Profit = - (256142228806697 / 2 ^ 48),
                ROI = - (6557241057451443 / 2 ^ 57), Win_Rate = 0.5\<rparr> \<and>
         \<bar>- (256142228806697 / 2 ^ 48) - (- 0.91)\<bar> < (1 / 10 ^ 15 :: real) \<and>
         \<bar>- (6557241057451443 / 2 ^ 57) - (- 0.0455)\<bar> < (1 / 10 ^ 15 :: real) \<and>
         snd (bankroll_simulation_fp to_double df) =
           Inr \<lparr>columns = [''date'', ''balance__FanDuel''],
                snaps = [\<lparr>snap_date = D1, balances = [(''FanDuel'', to_double 209.09)]\<rparr>,
                         \<lparr>snap_date = D2, balances = [(''FanDuel'', to_double 199.09)]\<rparr>]\<rparr>"
proof (intro conjI)
  show "snd (compute_metrics_fp to_double fsum df) =
           Inr \<lparr>Total_Bets = 2, Total_Staked = 20,
                Total_Profit = - (256142228806697 / 2 ^ 48),
                ROI = - (6557241057451443 / 2 ^ 57), Win_Rate = 0.5\<rparr>"
    using assms(3)
    by (simp add: compute_metrics_fp_def py_div_fp_def assms(2) double_eval)
next
  show "\<bar>- (256142228806697 / 2 ^ 48) - (- 0.91)\<bar> < (1 / 10 ^ 15 :: real)"
    by simp
next
  show "\<bar>- (6557241057451443 / 2 ^ 57) - (- 0.0455)\<bar> < (1 / 10 ^ 15 :: real)"
    by simp
next
  show "snd (bankroll_simulation_fp to_double df) =
           Inr \<lparr>columns = [''date'', ''balance__FanDuel''],
                snaps = [\<lparr>snap_date = D1, balances = [(''FanDuel'', to_double 209.09)]\<rparr>,
                         \<lparr>snap_date = D2, balances = [(''FanDuel'', to_double 199.09)]\<rparr>]\<rparr>"
    using assms(1,3)
    by (simp add: bankroll_simulation_fp_def
      sort_values_date_def unique_def STARTING_BANKROLLS_def dict_get_def DataFrame_def
      snapshot_keys_def drop_duplicates_date_def sort_values_snap_def double_eval)
qed

theorem two_record_example_in_doubles_witness:
  "(1::int) < 2 \<and>
   sum_in_order to_double [9.09, - 10] = to_double (9.09 + - 10) \<and>
   snd (compute_metrics_fp to_double (sum_in_order to_double) ledger_spec_example) =
     Inr \<lparr>Total_Bets = 2, Total_Staked = 20,
          Total_Profit = - (256142228806697 / 2 ^ 48),
          ROI = - (6557241057451443 / 2 ^ 57), Win_Rate = 0.5\<rparr> \<and>
   snd (bankroll_simulation_fp to_double ledger_spec_example) =
     Inr \<lparr>columns = [''date'', ''balance__FanDuel''],
          snaps = [\<lparr>snap_date = 1, balances = [(''FanDuel'', to_double 209.09)]\<rparr>,
                   \<lparr>snap_date = 2, balances = [(''FanDuel'', to_double 199.09)]\<rparr>]\<rparr>"
proof -
  have h: "(1::int) < 2" by simp
  have s: "\<And>a b. sum_in_order to_double [a, b] = to_double (a + b)" by simp
  have r: "rows ledger_spec_example =
      [sample_bet\<lparr>date := 1, book := ''FanDuel'', stake := 10, profit := to_double 9.09\<rparr>,
       sample_bet\<lparr>date := 2, book := ''FanDuel'', stake := 10, profit := - 10\<rparr>]"
    by (simp add: ledger_spec_example_def)
  from two_record_example_in_doubles [OF h s r] h s show ?thesis
    by simp
qed

text \<open>
  The figures as the specification writes them are not what the program returns on
  this ledger: its total profit is neither the real number -0.91 nor the double
  nearest to it, and its ROI is neither -0.0455 nor the double nearest to it.
\<close>

theorem two_record_example_not_exact:
  "snd (compute_metrics_fp to_double (sum_in_order to_double) ledger_spec_example) =
     Inr \<lparr>Total_Bets = 2, Total_Staked = 20,
          Total_Profit = - (256142228806697 / 2 ^ 48),
          ROI = - (6557241057451443 / 2 ^ 57), Win_Rate = 0.5\<rparr> \<and>
   (- (256142228806697 / 2 ^ 48) :: real) \<noteq> - 0.91 \<and>
   - (256142228806697 / 2 ^ 48) \<noteq> to_double (- 0.91) \<and>
   (- (6557241057451443 / 2 ^ 57) :: real) \<noteq> - 0.0455 \<and>
   - (6557241057451443 / 2 ^ 57) \<noteq> to_double (- 0.0455)"
  by (simp add: compute_metrics_fp_def py_div_fp_def ledger_spec_example_def sample_bet_def
      double_eval)

subsection \<open>Loading and appending\<close>

text \<open>
  \<^verbatim>\<open>add_bet\<close> returns the frame with the new row at the end and stores the text of
  that frame under \<^verbatim>\<open>CSV_PATH\<close>; \<^verbatim>\<open>load_bets\<close> then returns what the library reads
  from that text, and the empty ledger when there is no file.
\<close>

lemma append_then_reload:
  "fst (add_bet to_csv df bet_data files) = concat_row df bet_data \<and>
   rows (fst (add_bet to_csv df bet_data files)) = rows df @ [bet_data] \<and>
   load_bets read_csv (snd (add_bet to_csv df bet_data files)) CSV_PATH =
     read_csv (to_csv (concat_row df bet_data)) \<and>
   load_bets read_csv Map.empty CSV_PATH = Inr empty_ledger"
  by (simp add: add_bet_def save_bets_def load_bets_def concat_row_def Let_def)

end
